theory Spec2Isabelle
  imports Complex_Main "HOL-Library.Word" "HOL-Library.Signed_Division"
begin

section \<open>The sound mixer of sound.go\<close>

text \<open>
  The embedding follows sound.go function by function. Conventions:
  \<^item> Go's \<open>int\<close> is taken at 64 bits. Handles (\<open>soundHandle\<close>, incremented without
    bound) are \<open>64 word\<close>, read signed. Byte offsets into the hardware buffer come from
    \<open>uint32\<close> values of the driver and stay far below \<open>2 ^ 63\<close>; they are \<open>int\<close>, with
    Go's truncating \<open>/\<close> and \<open>%\<close> (\<open>sdiv\<close>, \<open>smod\<close>).
  \<^item> \<open>int16\<close> and \<open>int32\<close> samples are \<open>16 word\<close> and \<open>32 word\<close>, read signed.
  \<^item> \<open>float64\<close> positions and speeds are modelled by \<open>real\<close>: exact arithmetic, no
    rounding, no NaN and no infinities.
  \<^item> The DirectSound buffer is outside the repository. Its state is the record
    \<open>dsBuffer\<close> (is a region locked, what was written to it); what the driver answers
    during one call of \<open>update\<close> is the record \<open>dsTick\<close>.
  \<^item> A panic is the outcome \<open>Panic\<close>; a loop that does not end is the value \<open>None\<close>.
\<close>

subsection \<open>Data\<close>

type_synonym soundHandle = "64 word"

definition invalidSoundHandle :: soundHandle where
  "invalidSoundHandle = 0"

definition soundWriteAheadSamples :: nat where
  "soundWriteAheadSamples = 4096"

definition soundWriteAheadSize :: nat where
  "soundWriteAheadSize = 4 * soundWriteAheadSamples"

text \<open>\<open>soundSample.channels [2]int16\<close> and \<open>mixSample.channels [2]int32\<close>.\<close>

type_synonym soundSample = "16 word \<times> 16 word"
type_synonym mixSample = "32 word \<times> 32 word"

type_synonym consecutiveSounds = "soundHandle \<times> soundHandle"

datatype error =
    DeviceError
  | AssetError
  | DecodeError
  | OggSampleRateError
  | OggChannelsError
  | Mp3SampleRateError
  | UnknownExtension
  | UnknownHandleStop
  | UnknownHandleSetSpeed

datatype 'a outcome = Return 'a | Panic

record soundState =
  handle :: soundHandle
  samples :: "soundSample list"
  pos :: real
  lastSpeed :: real
  speed :: real
  looping :: bool
  queued :: bool

record dsBuffer =
  regionLocked :: bool
  region :: "soundSample list"

record dsTick =
  lockFails :: bool
  writeCursor :: "32 word option"
  unlockFails :: bool

record soundSystem =
  mixBuffer :: dsBuffer
  mixBufferSize :: int
  writeAheadBuffer :: "soundSample list"
  writeAheadMixBuffer :: "mixSample list"
  lastWritePos :: int
  loadedSounds :: "string \<rightharpoonup> 8 word list"
  playingSounds :: "soundState list"
  nextHandle :: soundHandle
  queue :: "consecutiveSounds list"

text \<open>
  The collaborators of \<open>loadRawSamples\<close>: the embedded asset files and the two decoders.
  \<open>oggReadAll\<close> gives the samples, the sample rate and the channel count;
  \<open>mp3NewDecoder\<close> gives the sample rate of the decoder and what reading it to the end
  returns (the mp3 decoder has no channel count: its output is always two channels of
  16 bits).
\<close>

record assets =
  readFile :: "string \<Rightarrow> error + 8 word list"
  oggReadAll :: "8 word list \<Rightarrow> error + (real list \<times> int \<times> int)"
  mp3NewDecoder :: "8 word list \<Rightarrow> error + (int \<times> (error + 8 word list))"

subsection \<open>Small functions\<close>

definition isOver :: "soundState \<Rightarrow> bool" where
  "isOver s = (\<not> looping s \<and> pos s \<ge> real_of_int (int (length (samples s)) - 1))"

text \<open>The two loops of \<open>wrapSoundPos\<close>, then the function.\<close>

partial_function (option) wrapSoundPos_up :: "real \<Rightarrow> real \<Rightarrow> real option" where
  "wrapSoundPos_up p n = (if p < 0 then wrapSoundPos_up (p + n) n else Some p)"

partial_function (option) wrapSoundPos_down :: "real \<Rightarrow> real \<Rightarrow> real option" where
  "wrapSoundPos_down p n = (if p > n then wrapSoundPos_down (p - n) n else Some p)"

definition wrapSoundPos :: "real \<Rightarrow> int \<Rightarrow> real option" where
  "wrapSoundPos p sampleCount =
     (let n = real_of_int sampleCount - 1 in
      case wrapSoundPos_up p n of
        None \<Rightarrow> None
      | Some p1 \<Rightarrow> wrapSoundPos_down p1 n)"

text \<open>Go's conversion \<open>int(x)\<close> of a float drops the fraction.\<close>

definition float_to_int :: "real \<Rightarrow> int" where
  "float_to_int x = (if x < 0 then \<lceil>x\<rceil> else \<lfloor>x\<rfloor>)"

definition round' :: "real \<Rightarrow> int" where
  "round' x = (if x < 0 then float_to_int (x - 1 / 2) else float_to_int (x + 1 / 2))"

definition writeSampleDist :: "soundSystem \<Rightarrow> int \<Rightarrow> int \<Rightarrow> int outcome" where
  "writeSampleDist s a b =
     (let d = b - a;
          d = (if d < 0 then mixBufferSize s - a + b else d)
      in if d smod 4 \<noteq> 0 then Panic else Return (d sdiv 4))"

fun soundFromHandle_from :: "nat \<Rightarrow> soundState list \<Rightarrow> soundHandle \<Rightarrow> nat option" where
  "soundFromHandle_from i [] h = None"
| "soundFromHandle_from i (x # xs) h =
     (if h = handle x then Some i else soundFromHandle_from (Suc i) xs h)"

text \<open>\<open>soundFromHandle\<close> returns a pointer into \<open>playingSounds\<close>: here, the index.\<close>

definition soundFromHandle :: "soundState list \<Rightarrow> soundHandle \<Rightarrow> nat option" where
  "soundFromHandle ps h = soundFromHandle_from 0 ps h"

subsection \<open>Loading clips\<close>

definition hasSuffix :: "string \<Rightarrow> string \<Rightarrow> bool" where
  "hasSuffix s suf =
     (length suf \<le> length s \<and> drop (length s - length suf) s = suf)"

text \<open>
  The ogg branch stores \<open>int16(data[i] * 32767)\<close> at byte offset \<open>2 * i\<close>, low byte
  first.
\<close>

definition oggSampleBytes :: "real \<Rightarrow> 8 word list" where
  "oggSampleBytes x =
     (let sample = (word_of_int (float_to_int (x * 32767)) :: 16 word)
      in [ucast sample, ucast (drop_bit 8 sample)])"

definition loadRawSamples ::
  "assets \<Rightarrow> string \<Rightarrow> soundSystem \<Rightarrow> (error + 8 word list) \<times> soundSystem" where
  "loadRawSamples a path s =
     (case loadedSounds s path of
        Some cached \<Rightarrow> (Inr cached, s)
      | None \<Rightarrow>
          (case readFile a path of
             Inl e \<Rightarrow> (Inl e, s)
           | Inr soundFile \<Rightarrow>
               (let decoded =
                  (if hasSuffix path ''.raw'' then Inr soundFile
                   else if hasSuffix path ''.ogg'' then
                     (case oggReadAll a soundFile of
                        Inl e \<Rightarrow> Inl e
                      | Inr (data, sampleRate, channels) \<Rightarrow>
                          if sampleRate \<noteq> 44100 then Inl OggSampleRateError
                          else if channels \<noteq> 2 then Inl OggChannelsError
                          else Inr (concat (map oggSampleBytes data)))
                   else if hasSuffix path ''.mp3'' then
                     (case mp3NewDecoder a soundFile of
                        Inl e \<Rightarrow> Inl e
                      | Inr (sampleRate, readAll) \<Rightarrow>
                          if sampleRate \<noteq> 44100 then Inl Mp3SampleRateError
                          else readAll)
                   else Inl UnknownExtension)
                in case decoded of
                     Inl e \<Rightarrow> (Inl e, s)
                   | Inr rawSoundData \<Rightarrow>
                       (Inr rawSoundData,
                        s\<lparr>loadedSounds := (loadedSounds s)(path \<mapsto> rawSoundData)\<rparr>))))"


text \<open>
  \<open>unsafe.Slice\<close> reads the raw bytes as \<open>len(raw)/4\<close> frames of two little-endian
  \<open>int16\<close>.
\<close>

definition le16 :: "8 word \<Rightarrow> 8 word \<Rightarrow> 16 word" where
  "le16 lo hi = or (ucast lo) (push_bit 8 (ucast hi))"

fun bytesToSamples :: "8 word list \<Rightarrow> soundSample list" where
  "bytesToSamples (b0 # b1 # b2 # b3 # rest) = (le16 b0 b1, le16 b2 b3) # bytesToSamples rest"
| "bytesToSamples rest = []"

subsection \<open>The playback registry\<close>




text \<open>\<open>&raw[0]\<close> panics on an empty slice.\<close>

definition playLoopingAndQueued ::
  "assets \<Rightarrow> string \<Rightarrow> bool \<Rightarrow> bool \<Rightarrow> soundSystem \<Rightarrow>
   (soundHandle \<times> error option) outcome \<times> soundSystem" where
  "playLoopingAndQueued a path isLooping isQueued s =
     (case loadRawSamples a path s of
        (Inl e, s1) \<Rightarrow> (Return (invalidSoundHandle, Some e), s1)
      | (Inr raw, s1) \<Rightarrow>
          if raw = [] then (Panic, s1)
          else
            (let h = nextHandle s1;
                 s2 = s1\<lparr>nextHandle := nextHandle s1 + 1\<rparr>
             in (Return (h, None),
                 s2\<lparr>playingSounds := playingSounds s2 @
                       [\<lparr>handle = h, samples = bytesToSamples raw, pos = 0, lastSpeed = 0,
                         speed = 1, looping = isLooping, queued = isQueued\<rparr>]\<rparr>)))"



definition queueLoopAfter ::
  "assets \<Rightarrow> soundHandle \<Rightarrow> string \<Rightarrow> soundSystem \<Rightarrow>
   (soundHandle \<times> error option) outcome \<times> soundSystem" where
  "queueLoopAfter a atEndOf path s =
     (case playLoopingAndQueued a path True True s of
        (Panic, s1) \<Rightarrow> (Panic, s1)
      | (Return (h, Some e), s1) \<Rightarrow> (Return (invalidSoundHandle, None), s1)
      | (Return (h, None), s1) \<Rightarrow>
          (Return (h, None), s1\<lparr>queue := queue s1 @ [(atEndOf, h)]\<rparr>))"

subsection \<open>The mixing engine: update\<close>

text \<open>Lines 216 to 219: the catch-up of one sound that is not queued.\<close>

definition update_advance :: "int \<Rightarrow> soundState \<Rightarrow> soundState option" where
  "update_advance playedSamples sound =
     (let sound = sound\<lparr>pos := pos sound + real_of_int playedSamples * lastSpeed sound\<rparr>
      in if looping sound then
           (case wrapSoundPos (pos sound) (int (length (samples sound))) of
              None \<Rightarrow> None
            | Some p \<Rightarrow> Some (sound\<lparr>pos := p\<rparr>))
         else Some sound)"

text \<open>Lines 222 to 232: what one sound adds to slot \<open>i\<close> of the accumulator.\<close>

definition update_mixSlot :: "soundState \<Rightarrow> nat \<Rightarrow> mixSample \<Rightarrow> mixSample option" where
  "update_mixSlot sound i m =
     (let p = pos sound + real i * speed sound in
      case (if looping sound then wrapSoundPos p (int (length (samples sound))) else Some p) of
        None \<Rightarrow> None
      | Some p \<Rightarrow>
          (let j = round' p in
           if 0 \<le> j \<and> j < int (length (samples sound)) then
             Some (fst m + scast (fst (samples sound ! nat j)),
                   snd m + scast (snd (samples sound ! nat j)))
           else Some m))"

text \<open>The loop over the slots of the accumulator, from slot \<open>i\<close> on.\<close>

fun update_mix :: "soundState \<Rightarrow> nat \<Rightarrow> mixSample list \<Rightarrow> mixSample list option" where
  "update_mix sound i [] = Some []"
| "update_mix sound i (m # ms) =
     (case update_mixSlot sound i m of
        None \<Rightarrow> None
      | Some m' \<Rightarrow>
          (case update_mix sound (Suc i) ms of
             None \<Rightarrow> None
           | Some ms' \<Rightarrow> Some (m' # ms')))"

text \<open>Lines 209 to 234: the loop over the playing sounds.\<close>

fun update_render ::
  "int \<Rightarrow> soundState list \<Rightarrow> mixSample list \<Rightarrow> (soundState list \<times> mixSample list) option" where
  "update_render playedSamples [] mix = Some ([], mix)"
| "update_render playedSamples (sound # rest) mix =
     (if queued sound then
        (case update_render playedSamples rest mix of
           None \<Rightarrow> None
         | Some (rest', mix') \<Rightarrow> Some (sound # rest', mix'))
      else
        (case update_advance playedSamples sound of
           None \<Rightarrow> None
         | Some sound' \<Rightarrow>
             (case update_mix sound' 0 mix of
                None \<Rightarrow> None
              | Some mix1 \<Rightarrow>
                  (case update_render playedSamples rest mix1 of
                     None \<Rightarrow> None
                   | Some (rest', mix') \<Rightarrow> Some (sound' # rest', mix')))))"

text \<open>Lines 238 to 245: one channel from the accumulator to the output.\<close>

definition update_clip :: "32 word \<Rightarrow> 16 word" where
  "update_clip x0 =
     (let x = (if 32767 <s x0 then 32767 else x0);
          x = (if x <s - 32768 then - 32768 else x)
      in ucast x)"

definition update_clipSample :: "mixSample \<Rightarrow> soundSample" where
  "update_clipSample m = (update_clip (fst m), update_clip (snd m))"

text \<open>
  Lines 260 to 269: the loop over the queue for the finished sound at index \<open>i\<close>. The
  state is the array of sounds, the array of the queue and \<open>queueN\<close>; \<open>ks\<close> are the
  indices still to visit.
\<close>

fun update_queueLoop ::
  "nat \<Rightarrow> nat list \<Rightarrow> soundState list \<times> consecutiveSounds list \<times> nat \<Rightarrow>
   soundState list \<times> consecutiveSounds list \<times> nat" where
  "update_queueLoop i [] st = st"
| "update_queueLoop i (k # ks) (ps, qs, queueN) =
     (let q = qs ! k in
      if fst q = handle (ps ! i) then
        (case soundFromHandle ps (snd q) of
           Some follow \<Rightarrow>
             update_queueLoop i ks (ps[follow := (ps ! follow)\<lparr>queued := False\<rparr>], qs, queueN)
         | None \<Rightarrow> update_queueLoop i ks (ps, qs, queueN))
      else update_queueLoop i ks (ps, qs[queueN := q], Suc queueN))"

text \<open>
  Lines 256 to 274: the loop that removes the sounds that are over. The state is the
  array of sounds, the array of the queue and \<open>n\<close>.
\<close>

fun update_reclaim ::
  "nat list \<Rightarrow> soundState list \<times> consecutiveSounds list \<times> nat \<Rightarrow>
   soundState list \<times> consecutiveSounds list \<times> nat" where
  "update_reclaim [] st = st"
| "update_reclaim (i # is) (ps, qs, n) =
     (if isOver (ps ! i) then
        (case update_queueLoop i [0..<length qs] (ps, qs, 0) of
           (ps', qs', queueN) \<Rightarrow> update_reclaim is (ps', qs', n))
      else update_reclaim is (ps[n := ps ! i], qs, Suc n))"

text \<open>
  The blocks of \<open>update\<close>. Lines 186 to 190: the accumulator, an array of
  \<open>soundWriteAheadSamples\<close> slots, is set to zero.
\<close>

definition update_zero :: "soundSystem \<Rightarrow> soundSystem" where
  "update_zero s = s\<lparr>writeAheadMixBuffer := replicate soundWriteAheadSamples (0, 0)\<rparr>"

text \<open>A \<open>Lock\<close> and an \<open>Unlock\<close> that succeed.\<close>

definition update_lock :: "soundSystem \<Rightarrow> soundSystem" where
  "update_lock s = s\<lparr>mixBuffer := (mixBuffer s)\<lparr>regionLocked := True\<rparr>\<rparr>"

definition update_unlock :: "soundSystem \<Rightarrow> soundSystem" where
  "update_unlock s = s\<lparr>mixBuffer := (mixBuffer s)\<lparr>regionLocked := False\<rparr>\<rparr>"

text \<open>Lines 236 to 249: the accumulator is clipped and written to the locked region.\<close>

definition update_output :: "soundSystem \<Rightarrow> soundSystem" where
  "update_output s =
     (let s = s\<lparr>writeAheadBuffer := map update_clipSample (writeAheadMixBuffer s)\<rparr>
      in s\<lparr>mixBuffer := (mixBuffer s)\<lparr>region := writeAheadBuffer s\<rparr>\<rparr>)"

text \<open>Lines 255 to 275: the sounds that are over are removed.\<close>

definition update_remove :: "soundSystem \<Rightarrow> soundSystem" where
  "update_remove s =
     (case update_reclaim [0..<length (playingSounds s)] (playingSounds s, queue s, 0) of
        (ps, qs, n) \<Rightarrow> s\<lparr>playingSounds := take n ps, queue := qs\<rparr>)"

text \<open>Lines 277 to 279.\<close>

definition update_lastSpeed :: "soundSystem \<Rightarrow> soundSystem" where
  "update_lastSpeed s =
     s\<lparr>playingSounds := map (\<lambda>x. x\<lparr>lastSpeed := speed x\<rparr>) (playingSounds s)\<rparr>"

text \<open>
  \<open>update\<close>. An \<open>Unlock\<close> that fails is taken to leave the region locked.
\<close>

definition update :: "dsTick \<Rightarrow> soundSystem \<Rightarrow> (error option outcome \<times> soundSystem) option" where
  "update t s0 =
     (let s1 = update_zero s0 in
      if lockFails t then Some (Return (Some DeviceError), s1)
      else
        (let s2 = update_lock s1 in
         case writeCursor t of
           None \<Rightarrow> Some (Return (Some DeviceError), s2)
         | Some write \<Rightarrow>
             (let writePos = uint write in
              case writeSampleDist s2 (lastWritePos s2) writePos of
                Panic \<Rightarrow> Some (Panic, s2)
              | Return playedSamples \<Rightarrow>
                  (case update_render playedSamples (playingSounds s2) (writeAheadMixBuffer s2) of
                     None \<Rightarrow> None
                   | Some (ps, mix) \<Rightarrow>
                       (let s3 = update_output (s2\<lparr>playingSounds := ps, writeAheadMixBuffer := mix\<rparr>)
                        in if unlockFails t then Some (Return (Some DeviceError), s3)
                           else Some (Return None,
                                  (update_lastSpeed (update_remove (update_unlock s3)))
                                    \<lparr>lastWritePos := writePos\<rparr>))))))"

subsection \<open>Sequences of calls\<close>




subsection \<open>The tick in the words of the specification\<close>

text \<open>
  Step 2 of the specification: a sound that is not queued advances by
  \<open>samplesElapsed * lastSpeed\<close>, wrapped when it loops.
\<close>

definition spec_advance :: "int \<Rightarrow> soundState \<Rightarrow> soundState" where
  "spec_advance samplesElapsed x =
     (if queued x then x
      else
        (let p = pos x + real_of_int samplesElapsed * lastSpeed x
         in x\<lparr>pos := (if looping x then the (wrapSoundPos p (int (length (samples x))))
                       else p)\<rparr>))"

text \<open>
  Step 3 of the specification: the source position of slot \<open>i\<close> is
  \<open>pos + i * speed\<close>, wrapped when the sound loops; the frame nearest to it is added,
  silence when it is outside the clip.
\<close>

definition spec_srcPos :: "soundState \<Rightarrow> nat \<Rightarrow> real" where
  "spec_srcPos x i = pos x + real i * speed x"

definition spec_frame :: "soundState \<Rightarrow> nat \<Rightarrow> mixSample" where
  "spec_frame x i =
     (let p = (if looping x then the (wrapSoundPos (spec_srcPos x i) (int (length (samples x))))
               else spec_srcPos x i);
          j = round' p
      in if 0 \<le> j \<and> j < int (length (samples x))
         then (scast (fst (samples x ! nat j)), scast (snd (samples x ! nat j)))
         else (0, 0))"

text \<open>Two records of a sound that differ at most in that the first is no longer queued.\<close>

definition unqueued :: "soundState \<Rightarrow> soundState \<Rightarrow> bool" where
  "unqueued y x = (y = x \<or> y = x\<lparr>queued := False\<rparr>)"

subsection \<open>Example inputs\<close>

definition tick0 :: dsTick where
  "tick0 = \<lparr>lockFails = False, writeCursor = Some 16, unlockFails = False\<rparr>"

definition sys0 :: soundSystem where
  "sys0 = \<lparr>mixBuffer = \<lparr>regionLocked = False, region = []\<rparr>,
           mixBufferSize = 352800,
           writeAheadBuffer = replicate soundWriteAheadSamples (0, 0),
           writeAheadMixBuffer = replicate soundWriteAheadSamples (0, 0),
           lastWritePos = 0,
           loadedSounds = Map.empty,
           playingSounds = [],
           nextHandle = 1,
           queue = []\<rparr>"

definition tickPartial :: dsTick where
  "tickPartial = \<lparr>lockFails = False, writeCursor = Some 18, unlockFails = False\<rparr>"

definition tickNoCursor :: dsTick where
  "tickNoCursor = \<lparr>lockFails = False, writeCursor = None, unlockFails = False\<rparr>"

text \<open>
  A clip of two frames that plays once (handle 1) and a looping clip of three frames
  queued after it (handle 2), as \<open>play\<close>, \<open>queueLoopAfter\<close> and a first tick leave
  them.
\<close>

definition soundA :: soundState where
  "soundA = \<lparr>handle = 1, samples = [(0, 0), (0, 0)], pos = 0, lastSpeed = 1, speed = 1,
              looping = False, queued = False\<rparr>"

definition soundB :: soundState where
  "soundB = \<lparr>handle = 2, samples = [(0, 0), (0, 0), (0, 0)], pos = 0, lastSpeed = 1,
              speed = 1, looping = True, queued = True\<rparr>"

definition sysAB :: soundSystem where
  "sysAB = sys0\<lparr>playingSounds := [soundA, soundB], nextHandle := 3, queue := [(1, 2)]\<rparr>"

text \<open>
  Asset files: \<open>missing.raw\<close> cannot be read, every other file holds two frames; the
  ogg decoder reports 22050 Hz and the mp3 decoder 48000 Hz.
\<close>

definition assets0 :: assets where
  "assets0 =
     \<lparr>readFile = (\<lambda>p. if p = ''missing.raw'' then Inl AssetError
                       else Inr [1, 0, 2, 0, 3, 0, 4, 0]),
      oggReadAll = (\<lambda>f. Inr ([1 / 2, 1 / 2], 22050, 2)),
      mp3NewDecoder = (\<lambda>f. Inr (48000, Inr [0, 0, 0, 0]))\<rparr>"

section \<open>Lemmas about the blocks of update\<close>

lemma writeSampleDist_size:
  "mixBufferSize s' = mixBufferSize s \<Longrightarrow> writeSampleDist s' a b = writeSampleDist s a b"
  by (simp add: writeSampleDist_def)

lemma update_zero_lock_fields:
  "mixBufferSize (update_lock (update_zero s)) = mixBufferSize s"
  "lastWritePos (update_lock (update_zero s)) = lastWritePos s"
  "playingSounds (update_lock (update_zero s)) = playingSounds s"
  "queue (update_lock (update_zero s)) = queue s"
  "writeAheadMixBuffer (update_lock (update_zero s)) = replicate soundWriteAheadSamples (0, 0)"
  by (simp_all add: update_lock_def update_zero_def)










lemma writeSampleDist_circular:
  assumes "0 \<le> a" "a < mixBufferSize s" "0 \<le> b" "b < mixBufferSize s"
  shows "writeSampleDist s a b =
         (if ((b - a) mod mixBufferSize s) mod 4 \<noteq> 0 then Panic
          else Return (((b - a) mod mixBufferSize s) div 4))"
proof -
  define d where "d = (if b - a < 0 then mixBufferSize s - a + b else b - a)"
  have d: "d = (b - a) mod mixBufferSize s"
  proof (cases "b - a < 0")
    case True
    have "(b - a) mod mixBufferSize s = (b - a + mixBufferSize s) mod mixBufferSize s"
      by simp
    also have "\<dots> = b - a + mixBufferSize s"
      using True assms by (intro mod_pos_pos_trivial) simp_all
    finally show ?thesis using True by (simp add: d_def)
  next
    case False
    then show ?thesis using assms by (simp add: d_def)
  qed
  have nn: "0 \<le> d" using assms by (simp add: d)
  have "d smod 4 = d mod 4" "d sdiv 4 = d div 4"
    using nn by (simp_all add: signed_modulo_int_def signed_divide_int_def sgn_if)
  then show ?thesis
    unfolding d [symmetric] by (simp add: writeSampleDist_def d_def Let_def)
qed

lemma update_run:
  assumes "\<not> lockFails t" "writeCursor t = Some w" "\<not> unlockFails t"
    "writeSampleDist s (lastWritePos s) (uint w) = Return played"
    "update_render played (playingSounds s) (replicate soundWriteAheadSamples (0, 0)) = Some (ps, mix)"
  shows "update t s = Some (Return None,
           (update_lastSpeed (update_remove (update_unlock (update_output
            ((update_lock (update_zero s))\<lparr>playingSounds := ps, writeAheadMixBuffer := mix\<rparr>)))))
          \<lparr>lastWritePos := uint w\<rparr>)"
proof -
  have wd: "writeSampleDist (update_lock (update_zero s)) a b = writeSampleDist s a b" for a b
    by (rule writeSampleDist_size) (simp add: update_zero_lock_fields)
  show ?thesis
    using assms by (simp add: update_def wd update_zero_lock_fields)
qed

lemma update_mixSlot_nonlooping:
  "\<not> looping sound \<Longrightarrow> \<exists>m'. update_mixSlot sound i m = Some m'"
  by (simp add: update_mixSlot_def Let_def)

lemma update_mix_nonlooping:
  "\<not> looping sound \<Longrightarrow> \<exists>ms'. update_mix sound i ms = Some ms'"
proof (induction ms arbitrary: i)
  case Nil
  then show ?case by simp
next
  case (Cons m ms)
  from update_mixSlot_nonlooping [OF Cons.prems] obtain m' where
    "update_mixSlot sound i m = Some m'" by blast
  moreover from Cons.IH [OF Cons.prems] obtain ms' where
    "update_mix sound (Suc i) ms = Some ms'" by blast
  ultimately show ?case by simp
qed

lemma update_sysAB:
  "\<exists>mix. update tick0 (sysAB\<lparr>queue := qs\<rparr>) =
     Some (Return None,
       (update_lastSpeed (update_remove (update_unlock (update_output
          ((update_lock (update_zero (sysAB\<lparr>queue := qs\<rparr>)))
             \<lparr>playingSounds := [soundA\<lparr>pos := 4\<rparr>, soundB], writeAheadMixBuffer := mix\<rparr>)))))
       \<lparr>lastWritePos := uint (16 :: 32 word)\<rparr>)"
proof -
  have adv: "update_advance 4 soundA = Some (soundA\<lparr>pos := 4\<rparr>)"
    by (simp add: update_advance_def soundA_def)
  obtain mix where
    mix: "update_mix (soundA\<lparr>pos := 4\<rparr>) 0 (replicate soundWriteAheadSamples (0, 0)) = Some mix"
    using update_mix_nonlooping [of "soundA\<lparr>pos := 4\<rparr>"] by (auto simp: soundA_def)
  have r: "update_render 4 (playingSounds (sysAB\<lparr>queue := qs\<rparr>))
             (replicate soundWriteAheadSamples (0, 0))
          = Some ([soundA\<lparr>pos := 4\<rparr>, soundB], mix)"
    using adv mix by (simp add: sysAB_def sys0_def soundA_def soundB_def)
  have wd: "writeSampleDist (sysAB\<lparr>queue := qs\<rparr>) (lastWritePos (sysAB\<lparr>queue := qs\<rparr>))
              (uint (16 :: 32 word)) = Return 4"
    by (simp add: writeSampleDist_def sysAB_def sys0_def)
  have "update tick0 (sysAB\<lparr>queue := qs\<rparr>) =
     Some (Return None,
       (update_lastSpeed (update_remove (update_unlock (update_output
          ((update_lock (update_zero (sysAB\<lparr>queue := qs\<rparr>)))
             \<lparr>playingSounds := [soundA\<lparr>pos := 4\<rparr>, soundB], writeAheadMixBuffer := mix\<rparr>)))))
       \<lparr>lastWritePos := uint (16 :: 32 word)\<rparr>)"
    by (rule update_run [OF _ _ _ wd r]) (simp_all add: tick0_def)
  then show ?thesis ..
qed

lemma update_remove_AB:
  assumes "playingSounds X = [soundA\<lparr>pos := 4\<rparr>, soundB]"
  shows "queue X = [(1, 2)] \<Longrightarrow>
           update_remove X = X\<lparr>playingSounds := [soundB\<lparr>queued := False\<rparr>], queue := [(1, 2)]\<rparr>"
    and "queue X = [(1, 2), (5, 6)] \<Longrightarrow>
           update_remove X =
             X\<lparr>playingSounds := [soundB\<lparr>queued := False\<rparr>], queue := [(5, 6), (5, 6)]\<rparr>"
  using assms
  by (simp_all add: update_remove_def isOver_def soundA_def soundB_def soundFromHandle_def
      Let_def)

lemma hasSuffix_ogg_not_raw: "hasSuffix path ''.ogg'' \<Longrightarrow> \<not> hasSuffix path ''.raw''"
  by (auto simp: hasSuffix_def)

lemma hasSuffix_mp3_not_others:
  "hasSuffix path ''.mp3'' \<Longrightarrow> \<not> hasSuffix path ''.raw'' \<and> \<not> hasSuffix path ''.ogg''"
  by (auto simp: hasSuffix_def)

lemma loadRawSamples_failure_state:
  "loadRawSamples a path s = (Inl e, s') \<Longrightarrow> s' = s"
  by (auto simp: loadRawSamples_def Let_def split: option.splits sum.splits if_splits prod.splits)

lemma playLoopingAndQueued_load_fails:
  "loadRawSamples a path s = (Inl e, s') \<Longrightarrow>
   playLoopingAndQueued a path l q s = (Return (invalidSoundHandle, Some e), s)"
  using loadRawSamples_failure_state [of a path s e s']
  by (simp add: playLoopingAndQueued_def)

lemma playLoopingAndQueued_error_handle:
  "playLoopingAndQueued a path l q s = (Return (h, Some e), s') \<Longrightarrow>
   h = invalidSoundHandle \<and> s' = s \<and> fst (loadRawSamples a path s) = Inl e"
  by (auto simp: playLoopingAndQueued_def Let_def loadRawSamples_failure_state
      split: prod.splits sum.splits if_splits)













subsection \<open>The loops of wrapSoundPos\<close>

lemma wrapSoundPos_down_zero_Some:
  assumes "wrapSoundPos_down p n = Some y"
  shows "\<not> (0 < p \<and> n = 0)"
proof (rule wrapSoundPos_down.raw_induct [where P = "\<lambda>p n y. \<not> (0 < p \<and> n = 0)", OF _ assms])
  fix f :: "real \<Rightarrow> real \<Rightarrow> real option" and p n y :: real
  assume ih: "\<And>p n y. f p n = Some y \<Longrightarrow> \<not> (0 < p \<and> n = 0)"
    and st: "(if n < p then f (p - n) n else Some p) = Some y"
  show "\<not> (0 < p \<and> n = 0)"
  proof
    assume a: "0 < p \<and> n = 0"
    with st have "f p 0 = Some y" by simp
    from ih [OF this] a show False by simp
  qed
qed

lemma wrapSoundPos_down_zero: "0 < p \<Longrightarrow> wrapSoundPos_down p 0 = None"
  using wrapSoundPos_down_zero_Some [of p 0] by (cases "wrapSoundPos_down p 0") auto

lemma wrapSoundPos_up_steps:
  assumes "0 < n" "- (real k * n) \<le> p"
  shows "\<exists>r j::nat. wrapSoundPos_up p n = Some r \<and> r = p + real j * n \<and> 0 \<le> r \<and> (p < 0 \<longrightarrow> r < n) \<and> (0 \<le> p \<longrightarrow> r = p)"
  using assms(2)
proof (induction k arbitrary: p)
  case 0
  then show ?case by (subst wrapSoundPos_up.simps) (auto intro: exI [of _ 0])
next
  case (Suc k)
  show ?case
  proof (cases "p < 0")
    case False
    then show ?thesis by (subst wrapSoundPos_up.simps) (auto intro: exI [of _ 0])
  next
    case True
    have "- (real k * n) \<le> p + n" using Suc.prems by (simp add: algebra_simps)
    from Suc.IH [OF this] obtain r j where
      r: "wrapSoundPos_up (p + n) n = Some r" "r = p + n + real j * n" "0 \<le> r"
         "p + n < 0 \<longrightarrow> r < n" "0 \<le> p + n \<longrightarrow> r = p + n"
      by blast
    have "wrapSoundPos_up p n = Some r"
      using True r(1) by (subst wrapSoundPos_up.simps) simp
    moreover have "r = p + real (Suc j) * n" using r(2) by (simp add: algebra_simps)
    moreover have "r < n" using r(4,5) True by (cases "p + n < 0") auto
    ultimately have "wrapSoundPos_up p n = Some r \<and> r = p + real (Suc j) * n \<and> 0 \<le> r
        \<and> (p < 0 \<longrightarrow> r < n) \<and> (0 \<le> p \<longrightarrow> r = p)"
      using r(3) True by simp
    then show ?thesis by blast
  qed
qed

lemma wrapSoundPos_up_total:
  assumes "0 < n"
  shows "\<exists>r j::nat. wrapSoundPos_up p n = Some r \<and> r = p + real j * n \<and> 0 \<le> r \<and> (p < 0 \<longrightarrow> r < n) \<and> (0 \<le> p \<longrightarrow> r = p)"
proof -
  obtain k :: nat where "- p / n < real k" using reals_Archimedean2 by blast
  then have "- (real k * n) \<le> p" using assms by (simp add: field_simps)
  from wrapSoundPos_up_steps [OF assms this] show ?thesis .
qed

lemma wrapSoundPos_down_steps:
  assumes "0 < n" "0 \<le> p" "p \<le> real k * n + n"
  shows "\<exists>r j::nat. wrapSoundPos_down p n = Some r \<and> r = p - real j * n \<and> 0 \<le> r \<and> r \<le> n"
  using assms(2,3)
proof (induction k arbitrary: p)
  case 0
  then show ?case by (subst wrapSoundPos_down.simps) (auto intro: exI [of _ 0])
next
  case (Suc k)
  show ?case
  proof (cases "p > n")
    case False
    with Suc.prems show ?thesis by (subst wrapSoundPos_down.simps) (auto intro: exI [of _ 0])
  next
    case True
    have "0 \<le> p - n" "p - n \<le> real k * n + n" using Suc.prems True by (simp_all add: algebra_simps)
    from Suc.IH [OF this] obtain r j where
      r: "wrapSoundPos_down (p - n) n = Some r" "r = p - n - real j * n" "0 \<le> r" "r \<le> n"
      by blast
    have "wrapSoundPos_down p n = Some r"
      using True r(1) by (subst wrapSoundPos_down.simps) simp
    moreover have "r = p - real (Suc j) * n" using r(2) by (simp add: algebra_simps)
    ultimately show ?thesis using r(3,4) by blast
  qed
qed

lemma wrapSoundPos_down_total:
  assumes "0 < n" "0 \<le> p"
  shows "\<exists>r j::nat. wrapSoundPos_down p n = Some r \<and> r = p - real j * n \<and> 0 \<le> r \<and> r \<le> n"
proof -
  obtain k :: nat where "p / n < real k" using reals_Archimedean2 by blast
  then have "p \<le> real k * n + n" using assms by (simp add: field_simps)
  from wrapSoundPos_down_steps [OF assms this] show ?thesis .
qed

lemma wrapSoundPos_total:
  assumes "2 \<le> c"
  shows "\<exists>r k::int. wrapSoundPos p c = Some r \<and> r = p + real_of_int k * (real_of_int c - 1)
           \<and> 0 \<le> r \<and> r \<le> real_of_int c - 1"
proof -
  define n where "n = real_of_int c - 1"
  have n: "0 < n" using assms by (simp add: n_def)
  from wrapSoundPos_up_total [OF n, of p] obtain r1 j1 where
    u: "wrapSoundPos_up p n = Some r1" "r1 = p + real j1 * n" "0 \<le> r1" by blast
  from wrapSoundPos_down_total [OF n u(3)] obtain r j where
    d: "wrapSoundPos_down r1 n = Some r" "r = r1 - real j * n" "0 \<le> r" "r \<le> n" by blast
  have "wrapSoundPos p c = Some r"
    using u(1) d(1) by (simp add: wrapSoundPos_def n_def)
  moreover have "r = p + real_of_int (int j1 - int j) * n"
    using u(2) d(2) by (simp add: algebra_simps)
  ultimately show ?thesis using d(3,4) unfolding n_def by blast
qed

subsection \<open>Rendering\<close>

lemma update_mixSlot_spec:
  "update_mixSlot x i m = Some m' \<Longrightarrow>
   m' = (fst m + fst (spec_frame x i), snd m + snd (spec_frame x i))"
  by (auto simp: update_mixSlot_def spec_frame_def spec_srcPos_def Let_def
      split: option.splits if_splits)

lemma update_mix_spec:
  "update_mix x i ms = Some ms' \<Longrightarrow>
   length ms' = length ms \<and>
   (\<forall>k < length ms. ms' ! k =
      (fst (ms ! k) + fst (spec_frame x (i + k)), snd (ms ! k) + snd (spec_frame x (i + k))))"
proof (induction ms arbitrary: i ms')
  case Nil
  then show ?case by simp
next
  case (Cons m ms)
  from Cons.prems obtain m1 ms1 where
    m1: "update_mixSlot x i m = Some m1" and ms1: "update_mix x (Suc i) ms = Some ms1"
    and ms': "ms' = m1 # ms1"
    by (auto split: option.splits)
  note ih = Cons.IH [OF ms1]
  show ?case
  proof (intro conjI allI impI)
    show "length ms' = length (m # ms)" using ih ms' by simp
  next
    fix k assume k: "k < length (m # ms)"
    show "ms' ! k = (fst ((m # ms) ! k) + fst (spec_frame x (i + k)),
                     snd ((m # ms) ! k) + snd (spec_frame x (i + k)))"
    proof (cases k)
      case 0
      with update_mixSlot_spec [OF m1] ms' show ?thesis by simp
    next
      case (Suc k')
      with k ih ms' show ?thesis by simp
    qed
  qed
qed

lemma update_advance_spec:
  "update_advance played x = Some x' \<Longrightarrow> \<not> queued x \<Longrightarrow> x' = spec_advance played x"
  by (auto simp: update_advance_def spec_advance_def Let_def split: option.splits if_splits)

lemma spec_advance_queued [simp]: "queued (spec_advance played x) = queued x"
  by (simp add: spec_advance_def Let_def)

lemma update_render_spec:
  "update_render played ps mix = Some (ps', mix') \<Longrightarrow>
   ps' = map (spec_advance played) ps \<and> length mix' = length mix \<and>
   (\<forall>k < length mix. mix' ! k =
      (fst (mix ! k) + sum_list (map (\<lambda>x. fst (spec_frame x k)) (filter (\<lambda>x. \<not> queued x) ps')),
       snd (mix ! k) + sum_list (map (\<lambda>x. snd (spec_frame x k)) (filter (\<lambda>x. \<not> queued x) ps'))))"
proof (induction ps arbitrary: mix ps' mix')
  case Nil
  then show ?case by simp
next
  case (Cons x xs)
  show ?case
  proof (cases "queued x")
    case True
    with Cons.prems obtain r where r: "update_render played xs mix = Some (r, mix')" "ps' = x # r"
      by (auto split: option.splits)
    have "spec_advance played x = x" using True by (simp add: spec_advance_def)
    with Cons.IH [OF r(1)] r(2) True show ?thesis by simp
  next
    case False
    with Cons.prems obtain x' mix1 r where
      a: "update_advance played x = Some x'" and m: "update_mix x' 0 mix = Some mix1"
      and r: "update_render played xs mix1 = Some (r, mix')" and ps': "ps' = x' # r"
      by (auto split: option.splits)
    have x': "x' = spec_advance played x" using update_advance_spec [OF a False] .
    have q: "\<not> queued x'" using False x' by simp
    note m1 = update_mix_spec [OF m]
    note ih = Cons.IH [OF r]
    show ?thesis
    proof (intro conjI allI impI)
      show "ps' = map (spec_advance played) (x # xs)" using ih ps' x' by simp
      show "length mix' = length mix" using ih m1 by simp
    next
      fix k assume k: "k < length mix"
      then have k1: "k < length mix1" using m1 by simp
      from ih k1 have "mix' ! k =
        (fst (mix1 ! k) + sum_list (map (\<lambda>x. fst (spec_frame x k)) (filter (\<lambda>x. \<not> queued x) r)),
         snd (mix1 ! k) + sum_list (map (\<lambda>x. snd (spec_frame x k)) (filter (\<lambda>x. \<not> queued x) r)))"
        by blast
      moreover from m1 k have "mix1 ! k =
        (fst (mix ! k) + fst (spec_frame x' k), snd (mix ! k) + snd (spec_frame x' k))"
        by simp
      ultimately show "mix' ! k =
        (fst (mix ! k) + sum_list (map (\<lambda>x. fst (spec_frame x k)) (filter (\<lambda>x. \<not> queued x) ps')),
         snd (mix ! k) + sum_list (map (\<lambda>x. snd (spec_frame x k)) (filter (\<lambda>x. \<not> queued x) ps')))"
        using q ps' by (simp add: add.assoc)
    qed
  qed
qed

section \<open>The claims\<close>



text \<open>
  C8. With \<open>lastWritePos\<close> and the cursor inside the buffer, the circular byte
  distance from \<open>lastWritePos\<close> to the cursor is
  \<open>(cursor - lastWritePos) mod mixBufferSize\<close>. When \<open>Lock\<close> and
  \<open>GetCurrentPosition\<close> succeed and this distance is not a multiple of 4,
  \<open>writeSampleDist\<close> panics and so does \<open>update\<close>: the sounds are not advanced
  and nothing is mixed or written. When the distance is a multiple of 4,
  \<open>writeSampleDist\<close> returns the distance divided by 4 and \<open>update\<close> does not
  panic.
\<close>

theorem cursor_distance_whole_frames:
  assumes "0 \<le> lastWritePos s" and "lastWritePos s < mixBufferSize s"
    and "uint w < mixBufferSize s"
    and "\<not> lockFails t" and "writeCursor t = Some w"
  shows "(((uint w - lastWritePos s) mod mixBufferSize s) mod 4 \<noteq> 0 \<longrightarrow>
            writeSampleDist s (lastWritePos s) (uint w) = Panic
            \<and> update t s =
                Some (Panic, s\<lparr>writeAheadMixBuffer := replicate soundWriteAheadSamples (0, 0),
                               mixBuffer := (mixBuffer s)\<lparr>regionLocked := True\<rparr>\<rparr>))
         \<and> (((uint w - lastWritePos s) mod mixBufferSize s) mod 4 = 0 \<longrightarrow>
            writeSampleDist s (lastWritePos s) (uint w) =
              Return (((uint w - lastWritePos s) mod mixBufferSize s) div 4)
            \<and> (\<forall>s'. update t s \<noteq> Some (Panic, s')))"
proof -
  have wd: "writeSampleDist s (lastWritePos s) (uint w) =
         (if ((uint w - lastWritePos s) mod mixBufferSize s) mod 4 \<noteq> 0 then Panic
          else Return (((uint w - lastWritePos s) mod mixBufferSize s) div 4))"
    using assms(1-3) by (intro writeSampleDist_circular) simp_all
  have wd': "writeSampleDist (update_lock (update_zero s)) a b = writeSampleDist s a b" for a b
    by (rule writeSampleDist_size) (simp add: update_zero_lock_fields)
  have st: "update_lock (update_zero s) =
      s\<lparr>writeAheadMixBuffer := replicate soundWriteAheadSamples (0, 0),
        mixBuffer := (mixBuffer s)\<lparr>regionLocked := True\<rparr>\<rparr>"
    by (simp add: update_lock_def update_zero_def)
  have a: "update t s = Some (Panic, update_lock (update_zero s))"
    if "writeSampleDist s (lastWritePos s) (uint w) = Panic"
    using that assms(4,5) by (simp add: update_def wd' update_zero_lock_fields)
  have b: "update t s \<noteq> Some (Panic, s')"
    if "writeSampleDist s (lastWritePos s) (uint w) = Return k" for k s'
    using that assms(4,5)
    by (simp add: update_def wd' update_zero_lock_fields Let_def split: option.splits prod.splits)
  show ?thesis
    using a b wd st by auto
qed

theorem cursor_distance_whole_frames_witness:
  "0 \<le> lastWritePos sys0 \<and> lastWritePos sys0 < mixBufferSize sys0
   \<and> uint (18 :: 32 word) < mixBufferSize sys0
   \<and> \<not> lockFails tickPartial \<and> writeCursor tickPartial = Some 18
   \<and> ((uint (18 :: 32 word) - lastWritePos sys0) mod mixBufferSize sys0) mod 4 \<noteq> 0
   \<and> writeSampleDist sys0 (lastWritePos sys0) (uint (18 :: 32 word)) = Panic
   \<and> update tickPartial sys0 =
        Some (Panic, sys0\<lparr>writeAheadMixBuffer := replicate soundWriteAheadSamples (0, 0),
                          mixBuffer := (mixBuffer sys0)\<lparr>regionLocked := True\<rparr>\<rparr>)
   \<and> uint (16 :: 32 word) < mixBufferSize sys0
   \<and> \<not> lockFails tick0 \<and> writeCursor tick0 = Some 16
   \<and> ((uint (16 :: 32 word) - lastWritePos sys0) mod mixBufferSize sys0) mod 4 = 0
   \<and> writeSampleDist sys0 (lastWritePos sys0) (uint (16 :: 32 word)) = Return 4
   \<and> (\<forall>s'. update tick0 sys0 \<noteq> Some (Panic, s'))"
  using cursor_distance_whole_frames [of sys0 18 tickPartial]
    cursor_distance_whole_frames [of sys0 16 tick0]
  by (simp add: sys0_def tick0_def tickPartial_def)

text \<open>
  C1, on the code: a tick on which the sound with handle 1 is over, with the link
  \<open>(1, 2)\<close> in the queue. The tick succeeds, the sound with handle 1 is removed and the
  sound with handle 2 is no longer queued, but the link \<open>(1, 2)\<close> is still in the queue:
  \<open>queueN\<close> counts the links to keep and the queue is never cut to that length. With a
  second link \<open>(5, 6)\<close> behind it the queue becomes \<open>[(5, 6), (5, 6)]\<close>: the kept link is
  copied to the front and stays at its old place too.
\<close>

theorem update_leaves_consumed_link:
  "(\<exists>s'. update tick0 sysAB = Some (Return None, s')
         \<and> map handle (playingSounds s') = [2]
         \<and> map queued (playingSounds s') = [False]
         \<and> queue s' = [(1, 2)])
   \<and> (\<exists>s'. update tick0 (sysAB\<lparr>queue := [(1, 2), (5, 6)]\<rparr>) = Some (Return None, s')
         \<and> map handle (playingSounds s') = [2]
         \<and> queue s' = [(5, 6), (5, 6)])"
proof
  have same: "sysAB\<lparr>queue := [(1, 2)]\<rparr> = sysAB"
    by (simp add: sysAB_def)
  obtain mix where u: "update tick0 sysAB =
     Some (Return None,
       (update_lastSpeed (update_remove (update_unlock (update_output
          ((update_lock (update_zero sysAB))
             \<lparr>playingSounds := [soundA\<lparr>pos := 4\<rparr>, soundB], writeAheadMixBuffer := mix\<rparr>)))))
       \<lparr>lastWritePos := uint (16 :: 32 word)\<rparr>)"
    using update_sysAB [of "[(1, 2)]"] unfolding same by blast
  define X where "X = update_unlock (update_output
          ((update_lock (update_zero sysAB))
             \<lparr>playingSounds := [soundA\<lparr>pos := 4\<rparr>, soundB], writeAheadMixBuffer := mix\<rparr>))"
  have ps: "playingSounds X = [soundA\<lparr>pos := 4\<rparr>, soundB]" and q: "queue X = [(1, 2)]"
    by (simp_all add: X_def update_unlock_def update_output_def update_lock_def update_zero_def
        sysAB_def)
  show "\<exists>s'. update tick0 sysAB = Some (Return None, s')
         \<and> map handle (playingSounds s') = [2]
         \<and> map queued (playingSounds s') = [False]
         \<and> queue s' = [(1, 2)]"
    using u unfolding X_def [symmetric] update_remove_AB(1) [OF ps q]
    by (simp add: update_lastSpeed_def soundB_def)
next
  obtain mix where u: "update tick0 (sysAB\<lparr>queue := [(1, 2), (5, 6)]\<rparr>) =
     Some (Return None,
       (update_lastSpeed (update_remove (update_unlock (update_output
          ((update_lock (update_zero (sysAB\<lparr>queue := [(1, 2), (5, 6)]\<rparr>)))
             \<lparr>playingSounds := [soundA\<lparr>pos := 4\<rparr>, soundB], writeAheadMixBuffer := mix\<rparr>)))))
       \<lparr>lastWritePos := uint (16 :: 32 word)\<rparr>)"
    using update_sysAB [of "[(1, 2), (5, 6)]"] by blast
  define X where "X = update_unlock (update_output
          ((update_lock (update_zero (sysAB\<lparr>queue := [(1, 2), (5, 6)]\<rparr>)))
             \<lparr>playingSounds := [soundA\<lparr>pos := 4\<rparr>, soundB], writeAheadMixBuffer := mix\<rparr>))"
  have ps: "playingSounds X = [soundA\<lparr>pos := 4\<rparr>, soundB]"
    and q: "queue X = [(1, 2), (5, 6)]"
    by (simp_all add: X_def update_unlock_def update_output_def update_lock_def update_zero_def)
  show "\<exists>s'. update tick0 (sysAB\<lparr>queue := [(1, 2), (5, 6)]\<rparr>) = Some (Return None, s')
         \<and> map handle (playingSounds s') = [2]
         \<and> queue s' = [(5, 6), (5, 6)]"
    using u unfolding X_def [symmetric] update_remove_AB(2) [OF ps q]
    by (simp add: update_lastSpeed_def soundB_def)
qed

text \<open>
  C2, on the code: \<open>Lock\<close> succeeds and \<open>GetCurrentPosition\<close> fails. \<open>update\<close>
  returns the error and the region is still locked.
\<close>

theorem update_cursor_error_keeps_lock:
  "update tickNoCursor sys0 =
     Some (Return (Some DeviceError),
           sys0\<lparr>mixBuffer := \<lparr>regionLocked = True, region = []\<rparr>\<rparr>)
   \<and> \<not> regionLocked (mixBuffer sys0)
   \<and> regionLocked (mixBuffer (sys0\<lparr>mixBuffer := \<lparr>regionLocked = True, region = []\<rparr>\<rparr>))"
  by (simp add: update_def tickNoCursor_def sys0_def update_zero_def update_lock_def)

text \<open>
  C10. A clip that is not in the cache yet and whose file can be read: an ogg file whose
  decoded format is not 44100 Hz with 2 channels, and an mp3 file whose decoder does not
  report 44100 Hz, fail to load with an error and leave the system, the cache included,
  as it was. (The mp3 decoder reports no channel count: it always gives two channels of
  16 bits.) More generally every load that fails leaves the cache unchanged.
\<close>

theorem load_format_mismatch:
  "(loadedSounds s path = None \<and> readFile a path = Inr file \<and> hasSuffix path ''.ogg''
      \<and> oggReadAll a file = Inr (data, sampleRate, channels)
      \<and> (sampleRate \<noteq> 44100 \<or> channels \<noteq> 2)
     \<longrightarrow> (\<exists>e. loadRawSamples a path s = (Inl e, s)))
   \<and> (loadedSounds s path = None \<and> readFile a path = Inr file \<and> hasSuffix path ''.mp3''
      \<and> mp3NewDecoder a file = Inr (sampleRate, rest) \<and> sampleRate \<noteq> 44100
     \<longrightarrow> (\<exists>e. loadRawSamples a path s = (Inl e, s)))
   \<and> (loadRawSamples a path s = (Inl e, s') \<longrightarrow> s' = s \<and> loadedSounds s' = loadedSounds s)"
proof (intro conjI impI)
  assume "loadedSounds s path = None \<and> readFile a path = Inr file \<and> hasSuffix path ''.ogg''
      \<and> oggReadAll a file = Inr (data, sampleRate, channels)
      \<and> (sampleRate \<noteq> 44100 \<or> channels \<noteq> 2)"
  then show "\<exists>e. loadRawSamples a path s = (Inl e, s)"
    using hasSuffix_ogg_not_raw [of path] by (auto simp: loadRawSamples_def)
next
  assume "loadedSounds s path = None \<and> readFile a path = Inr file \<and> hasSuffix path ''.mp3''
      \<and> mp3NewDecoder a file = Inr (sampleRate, rest) \<and> sampleRate \<noteq> 44100"
  then show "\<exists>e. loadRawSamples a path s = (Inl e, s)"
    using hasSuffix_mp3_not_others [of path] by (auto simp: loadRawSamples_def)
next
  assume "loadRawSamples a path s = (Inl e, s')"
  then show "s' = s" by (rule loadRawSamples_failure_state)
next
  assume "loadRawSamples a path s = (Inl e, s')"
  then have "s' = s" by (rule loadRawSamples_failure_state)
  then show "loadedSounds s' = loadedSounds s" by simp
qed

theorem load_format_mismatch_witness:
  "loadedSounds sys0 ''a.ogg'' = None
   \<and> readFile assets0 ''a.ogg'' = Inr [1, 0, 2, 0, 3, 0, 4, 0]
   \<and> hasSuffix ''a.ogg'' ''.ogg''
   \<and> oggReadAll assets0 [1, 0, 2, 0, 3, 0, 4, 0] = Inr ([1 / 2, 1 / 2], 22050, 2)
   \<and> (22050 :: int) \<noteq> 44100
   \<and> loadRawSamples assets0 ''a.ogg'' sys0 = (Inl OggSampleRateError, sys0)
   \<and> loadedSounds sys0 ''b.mp3'' = None
   \<and> readFile assets0 ''b.mp3'' = Inr [1, 0, 2, 0, 3, 0, 4, 0]
   \<and> hasSuffix ''b.mp3'' ''.mp3''
   \<and> mp3NewDecoder assets0 [1, 0, 2, 0, 3, 0, 4, 0] = Inr (48000, Inr [0, 0, 0, 0])
   \<and> (48000 :: int) \<noteq> 44100
   \<and> loadRawSamples assets0 ''b.mp3'' sys0 = (Inl Mp3SampleRateError, sys0)
   \<and> loadedSounds (snd (loadRawSamples assets0 ''b.mp3'' sys0)) = loadedSounds sys0"
  using load_format_mismatch [of sys0 "''a.ogg''" assets0 "[1, 0, 2, 0, 3, 0, 4, 0]"
      "[1 / 2, 1 / 2]" 22050 2 "Inr [0, 0, 0, 0]" OggSampleRateError sys0]
    load_format_mismatch [of sys0 "''b.mp3''" assets0 "[1, 0, 2, 0, 3, 0, 4, 0]"
      "[]" 48000 2 "Inr [0, 0, 0, 0]" Mp3SampleRateError sys0]
  by (simp add: sys0_def assets0_def hasSuffix_def loadRawSamples_def)

text \<open>
  C4. \<open>queueLoopAfter\<close> never returns an error. When the clip fails to load it returns
  the invalid handle 0 with no error, and the system is as it was: no sound and no link
  is added.
\<close>

theorem queueLoopAfter_never_returns_error:
  "(\<forall>h e s'. queueLoopAfter a atEndOf path s \<noteq> (Return (h, Some e), s'))
   \<and> (fst (loadRawSamples a path s) = Inl e \<longrightarrow>
        queueLoopAfter a atEndOf path s = (Return (0, None), s)
        \<and> playingSounds (snd (queueLoopAfter a atEndOf path s)) = playingSounds s
        \<and> queue (snd (queueLoopAfter a atEndOf path s)) = queue s)"
proof (intro conjI allI impI)
  fix h e s'
  show "queueLoopAfter a atEndOf path s \<noteq> (Return (h, Some e), s')"
    by (auto simp: queueLoopAfter_def split: prod.splits outcome.splits option.splits)
next
  assume f: "fst (loadRawSamples a path s) = Inl e"
  then obtain s1 where "loadRawSamples a path s = (Inl e, s1)"
    by (cases "loadRawSamples a path s") simp
  then have p: "playLoopingAndQueued a path True True s = (Return (invalidSoundHandle, Some e), s)"
    by (rule playLoopingAndQueued_load_fails)
  then show q: "queueLoopAfter a atEndOf path s = (Return (0, None), s)"
    by (simp add: queueLoopAfter_def invalidSoundHandle_def)
  then show "playingSounds (snd (queueLoopAfter a atEndOf path s)) = playingSounds s"
    and "queue (snd (queueLoopAfter a atEndOf path s)) = queue s"
    by simp_all
qed

theorem queueLoopAfter_never_returns_error_witness:
  "fst (loadRawSamples assets0 ''missing.raw'' sys0) = Inl AssetError
   \<and> queueLoopAfter assets0 1 ''missing.raw'' sys0 = (Return (0, None), sys0)
   \<and> playingSounds (snd (queueLoopAfter assets0 1 ''missing.raw'' sys0)) = []
   \<and> queue (snd (queueLoopAfter assets0 1 ''missing.raw'' sys0)) = []"
  using queueLoopAfter_never_returns_error [of assets0 1 "''missing.raw''" sys0 AssetError]
  by (simp add: sys0_def assets0_def loadRawSamples_def)




end
